theory Spec2Isabelle
  imports Main
begin

section \<open>Data model (backend/models.py, backend/schemas.py)\<close>

text \<open>
  Dates and times of day are compared by the queries only (\<open>\<le>\<close>, \<open><\<close>, \<open>=\<close>):
  a date is its proleptic ordinal, a time of day its offset from midnight.
\<close>

type_synonym date = int
type_synonym time = int

text \<open>\<open>models.Category\<close>: the annotator reads the name only.\<close>

record Category =
  name :: string

text \<open>
  \<open>models.Event\<close>, with the columns the reporting handlers read. The primary key
  \<open>Event.id\<close> is the field \<open>ev_id\<close>; \<open>title\<close> is not nullable, the dates and times are.
\<close>

record Event =
  ev_id :: int
  title :: string
  start_date :: "date option"
  end_date :: "date option"
  start_time :: "time option"
  categories :: "Category list"

text \<open>
  \<open>models.Reporting\<close>. The primary key \<open>Reporting.id\<close> is the field \<open>rep_id\<close>;
  \<open>event_id\<close> and \<open>event_title\<close> are not nullable, every other column is.
\<close>

record Reporting =
  rep_id :: int
  event_id :: int
  event_title :: string
  event_date :: "date option"
  event_start_time :: "time option"
  visitor :: "int option"
  vacation :: "string option"
  holiday :: "string option"
  special :: "string option"

text \<open>
  \<open>schemas.ReportingCreate\<close> (with the fields of \<open>ReportingBase\<close>): \<open>event_id: int\<close> and
  \<open>visitor: int\<close> have no default, the six others are \<open>Optional[...] = None\<close>.
  The fields carry the prefix \<open>in_\<close> to keep them apart from the columns of \<open>Reporting\<close>.
\<close>

record ReportingCreate =
  in_event_id :: int
  in_visitor :: int
  in_vacation :: "string option"
  in_holiday :: "string option"
  in_special :: "string option"
  in_event_title :: "string option"
  in_event_date :: "date option"
  in_event_start_time :: "time option"

text \<open>
  The request body before validation: every key may be missing (or null), which is
  \<open>None\<close> here.
\<close>

record payload =
  p_event_id :: "int option"
  p_visitor :: "int option"
  p_vacation :: "string option"
  p_holiday :: "string option"
  p_special :: "string option"
  p_event_title :: "string option"
  p_event_date :: "date option"
  p_event_start_time :: "time option"

text \<open>
  The two ways a request fails: the body does not validate (the error names the required
  fields that are missing), or the commit violates a constraint of the database.
\<close>

datatype error = ValidationError "string list" | IntegrityError

text \<open>
  Validation of a body against \<open>ReportingCreate\<close>: a field declared without a default
  is required, and \<open>None\<close> is not an \<open>int\<close>.
\<close>

definition ReportingCreate_validate :: "payload \<Rightarrow> error + ReportingCreate" where
  "ReportingCreate_validate p =
     (let missing = (if p_event_id p = None then [''event_id''] else []) @
                    (if p_visitor p = None then [''visitor''] else [])
      in case (p_event_id p, p_visitor p) of
           (Some e, Some v) \<Rightarrow>
             Inr \<lparr> in_event_id = e, in_visitor = v,
                   in_vacation = p_vacation p, in_holiday = p_holiday p,
                   in_special = p_special p, in_event_title = p_event_title p,
                   in_event_date = p_event_date p,
                   in_event_start_time = p_event_start_time p \<rparr>
         | _ \<Rightarrow> Inl (ValidationError missing))"

text \<open>
  The database session: the two tables the handlers touch, each in the order in which
  a query without \<open>order_by\<close> returns its rows, and the sequence that gives a new
  reporting row its id (\<open>database.py\<close>: PostgreSQL, the tables made by \<open>create_all\<close> from
  \<open>models.py\<close>).
\<close>

record db =
  events :: "Event list"
  reporting :: "Reporting list"
  reporting_id_seq :: int

text \<open>
  The foreign key of \<open>models.Reporting\<close>,
  \<open>event_id = Column(Integer, ForeignKey("events.id"), nullable=False)\<close>: the event id of
  a reporting row is the id of a stored event.
\<close>

definition references_event :: "db \<Rightarrow> Reporting \<Rightarrow> bool" where
  "references_event d r = list_ex (\<lambda>e. ev_id e = event_id r) (events d)"

text \<open>
  \<open>db.add(reporting); db.commit(); db.refresh(reporting)\<close>: the row takes the next id of
  the sequence; when its event id is the id of a stored event it is stored and read back,
  otherwise the commit raises and the row is not stored. The sequence does not step back
  when the insert fails. The object built by the handler has no id before the commit;
  whatever \<open>rep_id\<close> it carries is overwritten here.
\<close>

definition db_add :: "Reporting \<Rightarrow> db \<Rightarrow> (error + Reporting) \<times> db" where
  "db_add r d =
     (let r' = r\<lparr>rep_id := reporting_id_seq d\<rparr>;
          d' = d\<lparr>reporting_id_seq := reporting_id_seq d + 1\<rparr>
      in if references_event d r'
         then (Inr r', d'\<lparr>reporting := reporting d @ [r']\<rparr>)
         else (Inl IntegrityError, d'))"

text \<open>
  Committing a changed row object writes it back under its primary key. The handlers
  never assign \<open>event_id\<close> of a stored row, so the foreign key is not checked again.
\<close>

definition db_update :: "Reporting \<Rightarrow> db \<Rightarrow> (error + Reporting) \<times> db" where
  "db_update r' d =
     (Inr r',
      d\<lparr>reporting := map (\<lambda>r. if rep_id r = rep_id r' then r' else r) (reporting d)\<rparr>)"

text \<open>\<open>db.query(models.Event).filter(models.Event.id == i).first()\<close>\<close>

definition get_event :: "db \<Rightarrow> int \<Rightarrow> Event option" where
  "get_event d i = find (\<lambda>e. ev_id e = i) (events d)"

text \<open>
  \<open>db.query(models.Reporting).filter(models.Reporting.event_id == i)
     .order_by(models.Reporting.id.desc()).first()\<close>
\<close>

definition latest_reporting :: "db \<Rightarrow> int \<Rightarrow> Reporting option" where
  "latest_reporting d i =
     (case filter (\<lambda>r. event_id r = i) (reporting d) of
        [] \<Rightarrow> None
      | r # rs \<Rightarrow> Some (foldl (\<lambda>a b. if rep_id a < rep_id b then b else a) r rs))"

text \<open>
  The primary keys are unique, the sequence is ahead of every stored reporting id, and
  every stored reporting row satisfies the foreign key.
\<close>

definition db_ok :: "db \<Rightarrow> bool" where
  "db_ok d \<longleftrightarrow>
     distinct (map ev_id (events d)) \<and>
     distinct (map rep_id (reporting d)) \<and>
     list_all (\<lambda>r. rep_id r < reporting_id_seq d) (reporting d) \<and>
     list_all (references_event d) (reporting d)"

section \<open>The reporting handlers (backend/main.py)\<close>

text \<open>\<open>cat_names = {c.name for c in (other.categories or [])}\<close>\<close>

definition cat_names :: "Event \<Rightarrow> string set" where
  "cat_names other = set (map name (categories other))"

text \<open>
  The first query: the other events whose start date is on or before the event's date
  (a row with no start date fails the SQL comparison). The handler's variables
  \<open>event_date\<close> and \<open>event_time\<close> are \<open>edate\<close> and \<open>etime\<close> here.
\<close>

definition overlapping_events :: "db \<Rightarrow> Event \<Rightarrow> date \<Rightarrow> Event list" where
  "overlapping_events d event edate =
     filter (\<lambda>other. ev_id other \<noteq> ev_id event \<and>
                     (case start_date other of None \<Rightarrow> False | Some s \<Rightarrow> s \<le> edate))
            (events d)"

text \<open>
  The loop over \<open>overlapping_events\<close>, with the two variables \<open>vacation_title\<close> and
  \<open>holiday_title\<close> as its state.
\<close>

fun overlap_loop ::
  "date \<Rightarrow> Event list \<Rightarrow> string option \<times> string option \<Rightarrow> string option \<times> string option" where
  "overlap_loop edate [] (vacation_title, holiday_title) = (vacation_title, holiday_title)"
| "overlap_loop edate (other # rest) (vacation_title, holiday_title) =
     (if (case end_date other of None \<Rightarrow> False | Some e \<Rightarrow> e < edate)
      then overlap_loop edate rest (vacation_title, holiday_title)
      else overlap_loop edate rest
             (if ''Ferien'' \<in> cat_names other \<and> vacation_title = None
              then Some (title other) else vacation_title,
              if ''Feiertag'' \<in> cat_names other \<and> holiday_title = None
              then Some (title other) else holiday_title))"

text \<open>The second query: the other events with the same start date and start time.\<close>

definition same_dt_events :: "db \<Rightarrow> Event \<Rightarrow> date \<Rightarrow> time \<Rightarrow> Event list" where
  "same_dt_events d event edate etime =
     filter (\<lambda>other. ev_id other \<noteq> ev_id event \<and>
                     start_date other = Some edate \<and>
                     start_time other = Some etime)
            (events d)"

text \<open>The loop over \<open>same_dt_events\<close>, appending to \<open>special_titles\<close>.\<close>

fun special_loop :: "Event list \<Rightarrow> string list \<Rightarrow> string list" where
  "special_loop [] special_titles = special_titles"
| "special_loop (other # rest) special_titles =
     (if ''Lobpreisabend'' \<in> cat_names other \<or> ''Special'' \<in> cat_names other
      then (if title other \<noteq> []
            then special_loop rest (special_titles @ [title other])
            else special_loop rest special_titles)
      else special_loop rest special_titles)"

text \<open>The loop that removes repeated titles, with \<open>seen\<close> and \<open>deduped\<close> as its state.\<close>

fun dedup_loop :: "string list \<Rightarrow> string set \<Rightarrow> string list \<Rightarrow> string list" where
  "dedup_loop [] seen deduped = deduped"
| "dedup_loop (t # ts) seen deduped =
     (if t \<notin> seen then dedup_loop ts (insert t seen) (deduped @ [t])
      else dedup_loop ts seen deduped)"

text \<open>\<open>sep.join(xs)\<close>\<close>

fun str_join :: "string \<Rightarrow> string list \<Rightarrow> string" where
  "str_join sep [] = []"
| "str_join sep [x] = x"
| "str_join sep (x # y # ys) = x @ sep @ str_join sep (y # ys)"

text \<open>
  The auto-detection of an existing event: the values of \<open>vacation_title\<close>,
  \<open>holiday_title\<close> and \<open>special_value\<close> when the handler reaches the lookup of the
  latest reporting row.
\<close>

definition auto_detect :: "db \<Rightarrow> Event \<Rightarrow> string option \<times> string option \<times> string option" where
  "auto_detect d event =
     (let (vacation_title, holiday_title, special_titles) =
            (case start_date event of
               None \<Rightarrow> (None, None, [])
             | Some edate \<Rightarrow>
                 (let (v, h) = overlap_loop edate
                                 (overlapping_events d event edate) (None, None);
                      st = (case start_time event of
                              None \<Rightarrow> []
                            | Some etime \<Rightarrow>
                                special_loop (same_dt_events d event edate etime) [])
                  in (v, h, st)));
          special_value = (if special_titles \<noteq> []
                           then Some (str_join '', '' (dedup_loop special_titles {} []))
                           else None)
      in (vacation_title, holiday_title, special_value))"

text \<open>\<open>a if a is not None else b\<close>\<close>

definition if_not_none :: "'a option \<Rightarrow> 'a option \<Rightarrow> 'a option" where
  "if_not_none a b = (case a of Some x \<Rightarrow> Some x | None \<Rightarrow> b)"

text \<open>
  \<open>reporting_in.event_id or 99\<close> and \<open>reporting_in.event_title or ""\<close>: the left operand
  unless it is falsy (\<open>0\<close>, \<open>None\<close>, the empty string).
\<close>

definition event_id_or_99 :: "int \<Rightarrow> int" where
  "event_id_or_99 i = (if i \<noteq> 0 then i else 99)"

definition title_or_empty :: "string option \<Rightarrow> string" where
  "title_or_empty t = (case t of None \<Rightarrow> [] | Some s \<Rightarrow> if s \<noteq> [] then s else [])"

text \<open>
  The row built from the payload alone, in the no-event branch of
  \<open>create_reporting_entry\<close> and in \<open>create_reporting_entry_manual\<close>.
\<close>

definition manual_row :: "ReportingCreate \<Rightarrow> Reporting" where
  "manual_row reporting_in =
     \<lparr> rep_id = 0,
       event_id = event_id_or_99 (in_event_id reporting_in),
       event_title = title_or_empty (in_event_title reporting_in),
       event_date = in_event_date reporting_in,
       event_start_time = in_event_start_time reporting_in,
       visitor = Some (in_visitor reporting_in),
       vacation = in_vacation reporting_in,
       holiday = in_holiday reporting_in,
       special = in_special reporting_in \<rparr>"

text \<open>
  \<open>create_reporting_entry\<close> (POST /reporting), after validation and authorisation:
  the returned row, or the error raised by the commit, and the database afterwards.
\<close>

definition create_reporting_entry ::
  "ReportingCreate \<Rightarrow> db \<Rightarrow> (error + Reporting) \<times> db" where
  "create_reporting_entry reporting_in d =
     (case get_event d (in_event_id reporting_in) of
        None \<Rightarrow> db_add (manual_row reporting_in) d
      | Some event \<Rightarrow>
          (let (vacation_title, holiday_title, special_value) = auto_detect d event
           in case latest_reporting d (ev_id event) of
                Some existing \<Rightarrow>
                  db_update
                    (existing\<lparr> event_title := title event,
                               event_date := start_date event,
                               event_start_time := start_time event,
                               visitor := Some (in_visitor reporting_in),
                               vacation := if_not_none vacation_title (in_vacation reporting_in),
                               holiday := if_not_none holiday_title (in_holiday reporting_in),
                               special := if_not_none special_value (in_special reporting_in) \<rparr>)
                    d
              | None \<Rightarrow>
                  db_add
                    \<lparr> rep_id = 0,
                      event_id = ev_id event,
                      event_title = title event,
                      event_date = start_date event,
                      event_start_time = start_time event,
                      visitor = Some (in_visitor reporting_in),
                      vacation = if_not_none vacation_title (in_vacation reporting_in),
                      holiday = if_not_none holiday_title (in_holiday reporting_in),
                      special = if_not_none special_value (in_special reporting_in) \<rparr>
                    d))"

text \<open>\<open>create_reporting_entry_manual\<close> (POST /reporting/manual), after validation.\<close>

definition create_reporting_entry_manual ::
  "ReportingCreate \<Rightarrow> db \<Rightarrow> (error + Reporting) \<times> db" where
  "create_reporting_entry_manual reporting_in d = db_add (manual_row reporting_in) d"

text \<open>
  The two routes as the client reaches them: the body is validated against
  \<open>ReportingCreate\<close> first, and a body that fails is answered with the error, the
  handler not being called.
\<close>

definition post_reporting :: "payload \<Rightarrow> db \<Rightarrow> (error + Reporting) \<times> db" where
  "post_reporting p d =
     (case ReportingCreate_validate p of
        Inl e \<Rightarrow> (Inl e, d)
      | Inr reporting_in \<Rightarrow> create_reporting_entry reporting_in d)"

definition post_reporting_manual :: "payload \<Rightarrow> db \<Rightarrow> (error + Reporting) \<times> db" where
  "post_reporting_manual p d =
     (case ReportingCreate_validate p of
        Inl e \<Rightarrow> (Inl e, d)
      | Inr reporting_in \<Rightarrow> create_reporting_entry_manual reporting_in d)"

text \<open>The number of reporting rows of an event id.\<close>

definition row_count :: "db \<Rightarrow> int \<Rightarrow> nat" where
  "row_count d i = length (filter (\<lambda>r. event_id r = i) (reporting d))"

section \<open>The properties in the specification's words\<close>

text \<open>
  Removing repeated elements, the first occurrence of each staying where it is.
\<close>

fun dedup_first :: "'a list \<Rightarrow> 'a list" where
  "dedup_first [] = []"
| "dedup_first (x # xs) = x # dedup_first (removeAll x xs)"




section \<open>Example data\<close>

text \<open>
  A service on day 100 at 600, a vacation that ended before it, a vacation that covers it
  and is a holiday as well, a later holiday, three events in the same slot (two of them
  with the same title), an event without a date, and the event 99 that manual rows refer
  to. The reporting table holds one manual row and one row of the service.
\<close>

definition ex_event :: Event where
  "ex_event =
     \<lparr>ev_id = 1, title = ''Gottesdienst'', start_date = Some 100, end_date = None,
      start_time = Some 600, categories = [\<lparr>name = ''Gottesdienst''\<rparr>]\<rparr>"

definition ex_undated :: Event where
  "ex_undated =
     \<lparr>ev_id = 8, title = ''Planung'', start_date = None, end_date = None,
      start_time = Some 600, categories = []\<rparr>"

definition ex_manual :: Event where
  "ex_manual =
     \<lparr>ev_id = 99, title = ''Manuelle Eintraege'', start_date = None, end_date = None,
      start_time = None, categories = []\<rparr>"

definition ex_ferien :: Event where
  "ex_ferien =
     \<lparr>ev_id = 2, title = ''Pfingstferien'', start_date = Some 97, end_date = Some 102,
      start_time = None, categories = [\<lparr>name = ''Ferien''\<rparr>, \<lparr>name = ''Feiertag''\<rparr>]\<rparr>"

definition ex_events :: "Event list" where
  "ex_events =
     [\<lparr>ev_id = 3, title = ''Herbstferien'', start_date = Some 90, end_date = Some 95,
        start_time = None, categories = [\<lparr>name = ''Ferien''\<rparr>]\<rparr>,
      ex_event,
      ex_ferien,
      \<lparr>ev_id = 4, title = ''Pfingstmontag'', start_date = Some 100, end_date = Some 100,
        start_time = None, categories = [\<lparr>name = ''Feiertag''\<rparr>, \<lparr>name = ''Ferien''\<rparr>]\<rparr>,
      \<lparr>ev_id = 5, title = ''Jugendgottesdienst'', start_date = Some 100, end_date = None,
        start_time = Some 600, categories = [\<lparr>name = ''Special''\<rparr>]\<rparr>,
      \<lparr>ev_id = 6, title = ''Lobpreis'', start_date = Some 100, end_date = None,
        start_time = Some 600, categories = [\<lparr>name = ''Lobpreisabend''\<rparr>]\<rparr>,
      \<lparr>ev_id = 7, title = ''Jugendgottesdienst'', start_date = Some 100, end_date = None,
        start_time = Some 600, categories = [\<lparr>name = ''Lobpreisabend''\<rparr>]\<rparr>,
      ex_undated,
      ex_manual]"

definition ex_db :: db where
  "ex_db =
     \<lparr>events = ex_events,
      reporting =
        [\<lparr>rep_id = 1, event_id = 99, event_title = ''Manuell'', event_date = None,
           event_start_time = None, visitor = None, vacation = None, holiday = None,
           special = None\<rparr>,
         \<lparr>rep_id = 2, event_id = 1, event_title = ''Gottesdienst'', event_date = Some 100,
           event_start_time = Some 600, visitor = Some 80, vacation = None, holiday = None,
           special = None\<rparr>],
      reporting_id_seq = 3\<rparr>"

definition ex_in :: "int \<Rightarrow> ReportingCreate" where
  "ex_in i =
     \<lparr>in_event_id = i, in_visitor = 120, in_vacation = Some ''keine'', in_holiday = None,
      in_special = Some ''Taufe'', in_event_title = None, in_event_date = Some 100,
      in_event_start_time = None\<rparr>"

definition ex_payload :: "int option \<Rightarrow> int option \<Rightarrow> payload" where
  "ex_payload i v =
     \<lparr>p_event_id = i, p_visitor = v, p_vacation = None, p_holiday = None, p_special = None,
      p_event_title = None, p_event_date = None, p_event_start_time = None\<rparr>"

lemmas ex_defs = ex_event_def ex_undated_def ex_manual_def ex_ferien_def ex_events_def ex_db_def
  ex_in_def

lemmas run_defs = create_reporting_entry_def get_event_def latest_reporting_def auto_detect_def
  overlapping_events_def same_dt_events_def cat_names_def if_not_none_def db_add_def db_update_def
  references_event_def manual_row_def event_id_or_99_def title_or_empty_def row_count_def Let_def

section \<open>The loops, as list functions\<close>









lemma auto_detect_special_no_time:
  "start_time event = None \<Longrightarrow> snd (snd (auto_detect d event)) = None"
  by (simp add: auto_detect_def Let_def split: prod.splits option.splits)

lemma dedup_first_set: "set (dedup_first xs) = set xs"
  by (induction xs rule: dedup_first.induct) auto

lemma dedup_first_distinct: "distinct (dedup_first xs)"
  by (induction xs rule: dedup_first.induct) (auto simp: dedup_first_set)

section \<open>The reporting table\<close>

lemma foldl_latest_mem:
  "foldl (\<lambda>a b. if rep_id a < rep_id b then b else a) r rs \<in> set (r # rs)"
  by (induction rs arbitrary: r) auto

lemma foldl_latest_ge:
  "rep_id r \<le> rep_id (foldl (\<lambda>a b. if rep_id a < rep_id b then b else a) r rs)"
proof (induction rs arbitrary: r)
  case Nil
  show ?case by simp
next
  case (Cons y ys)
  show ?case
    using Cons.IH [of y] Cons.IH [of r] by (simp add: less_imp_le order_trans)
qed

lemma foldl_latest_max:
  "x \<in> set (r # rs) \<Longrightarrow>
   rep_id x \<le> rep_id (foldl (\<lambda>a b. if rep_id a < rep_id b then b else a) r rs)"
proof (induction rs arbitrary: r)
  case Nil
  then show ?case by simp
next
  case (Cons y ys)
  let ?m = "if rep_id r < rep_id y then y else r"
  have step: "rep_id ?m \<le> rep_id (foldl (\<lambda>a b. if rep_id a < rep_id b then b else a) ?m ys)"
    by (rule foldl_latest_ge)
  consider "x = r" | "x = y" | "x \<in> set ys" using Cons.prems by auto
  then show ?case
  proof cases
    case 1
    then show ?thesis using step by (auto split: if_splits)
  next
    case 2
    then show ?thesis using step by (auto split: if_splits)
  next
    case 3
    then have "x \<in> set (?m # ys)" by simp
    then show ?thesis using Cons.IH [of ?m] by simp
  qed
qed

lemma latest_reporting_Some:
  assumes "latest_reporting d i = Some existing"
  shows "existing \<in> set (reporting d)" and "event_id existing = i"
    and "\<And>r. r \<in> set (reporting d) \<Longrightarrow> event_id r = i \<Longrightarrow> rep_id r \<le> rep_id existing"
proof -
  obtain r rs where f: "filter (\<lambda>r. event_id r = i) (reporting d) = r # rs"
    and e: "existing = foldl (\<lambda>a b. if rep_id a < rep_id b then b else a) r rs"
    using assms by (auto simp: latest_reporting_def split: list.splits)
  have "existing \<in> set (filter (\<lambda>r. event_id r = i) (reporting d))"
    unfolding f e by (rule foldl_latest_mem)
  then show "existing \<in> set (reporting d)" and "event_id existing = i" by simp_all
  fix x assume "x \<in> set (reporting d)" "event_id x = i"
  then have "x \<in> set (r # rs)" unfolding f [symmetric] by simp
  then show "rep_id x \<le> rep_id existing" unfolding e by (rule foldl_latest_max)
qed


lemma get_event_Some:
  assumes "get_event d i = Some e"
  shows "e \<in> set (events d)" and "ev_id e = i"
  using assms by (auto simp: get_event_def find_Some_iff)

lemma get_event_None: "get_event d i = None \<longleftrightarrow> \<not> list_ex (\<lambda>e. ev_id e = i) (events d)"
  by (auto simp: get_event_def find_None_iff list_ex_iff)


lemma create_manual_branch:
  "get_event d (in_event_id reporting_in) = None \<Longrightarrow>
   create_reporting_entry reporting_in d = db_add (manual_row reporting_in) d"
  by (simp add: create_reporting_entry_def)

lemma create_update_branch:
  "get_event d (in_event_id reporting_in) = Some event \<Longrightarrow>
   latest_reporting d (ev_id event) = Some existing \<Longrightarrow>
   create_reporting_entry reporting_in d =
     db_update
       (existing\<lparr> event_title := title event,
                  event_date := start_date event,
                  event_start_time := start_time event,
                  visitor := Some (in_visitor reporting_in),
                  vacation := if_not_none (fst (auto_detect d event)) (in_vacation reporting_in),
                  holiday := if_not_none (fst (snd (auto_detect d event))) (in_holiday reporting_in),
                  special := if_not_none (snd (snd (auto_detect d event))) (in_special reporting_in) \<rparr>)
       d"
  by (simp add: create_reporting_entry_def split: prod.splits)

lemma create_insert_branch:
  "get_event d (in_event_id reporting_in) = Some event \<Longrightarrow>
   latest_reporting d (ev_id event) = None \<Longrightarrow>
   create_reporting_entry reporting_in d =
     db_add
       \<lparr> rep_id = 0,
         event_id = ev_id event,
         event_title = title event,
         event_date = start_date event,
         event_start_time = start_time event,
         visitor = Some (in_visitor reporting_in),
         vacation = if_not_none (fst (auto_detect d event)) (in_vacation reporting_in),
         holiday = if_not_none (fst (snd (auto_detect d event))) (in_holiday reporting_in),
         special = if_not_none (snd (snd (auto_detect d event))) (in_special reporting_in) \<rparr>
       d"
  by (simp add: create_reporting_entry_def split: prod.splits)

lemma db_update_in_place:
  assumes "distinct (map rep_id rows)" and "existing \<in> set rows" and "rep_id r' = rep_id existing"
  shows "\<exists>i<length rows. rows ! i = existing \<and>
           map (\<lambda>r. if rep_id r = rep_id r' then r' else r) rows = rows[i := r']"
proof -
  from assms(2) obtain i where i: "i < length rows" "rows ! i = existing"
    by (auto simp: in_set_conv_nth)
  have "map (\<lambda>r. if rep_id r = rep_id r' then r' else r) rows = rows[i := r']"
  proof (rule nth_equalityI)
    show "length (map (\<lambda>r. if rep_id r = rep_id r' then r' else r) rows) = length (rows[i := r'])"
      by simp
  next
    fix j assume "j < length (map (\<lambda>r. if rep_id r = rep_id r' then r' else r) rows)"
    then have j: "j < length rows" by simp
    show "map (\<lambda>r. if rep_id r = rep_id r' then r' else r) rows ! j = rows[i := r'] ! j"
    proof (cases "j = i")
      case True
      then show ?thesis using i assms(3) by simp
    next
      case False
      have "rep_id (rows ! j) \<noteq> rep_id (rows ! i)"
        using assms(1) i(1) j False by (auto simp: distinct_conv_nth)
      then show ?thesis using j i assms(3) False by simp
    qed
  qed
  with i show ?thesis by blast
qed



lemma update_branch_step:
  assumes dist: "distinct (map rep_id (reporting d))"
    and ev: "get_event d (in_event_id a) = Some event"
    and lat: "latest_reporting d (ev_id event) = Some existing"
  shows "\<exists>i<length (reporting d).
           reporting d ! i = existing \<and>
           create_reporting_entry a d =
             (let r = existing\<lparr> event_title := title event,
                        event_date := start_date event,
                        event_start_time := start_time event,
                        visitor := Some (in_visitor a),
                        vacation := if_not_none (fst (auto_detect d event)) (in_vacation a),
                        holiday := if_not_none (fst (snd (auto_detect d event))) (in_holiday a),
                        special := if_not_none (snd (snd (auto_detect d event))) (in_special a) \<rparr>
              in (Inr r, d\<lparr>reporting := (reporting d)[i := r]\<rparr>))"
proof -
  let ?r = "existing\<lparr> event_title := title event,
                        event_date := start_date event,
                        event_start_time := start_time event,
                        visitor := Some (in_visitor a),
                        vacation := if_not_none (fst (auto_detect d event)) (in_vacation a),
                        holiday := if_not_none (fst (snd (auto_detect d event))) (in_holiday a),
                        special := if_not_none (snd (snd (auto_detect d event))) (in_special a) \<rparr>"
  have id: "rep_id ?r = rep_id existing" by simp
  from db_update_in_place [OF dist latest_reporting_Some(1) [OF lat] id]
  obtain i where i: "i < length (reporting d)" "reporting d ! i = existing"
    "map (\<lambda>r. if rep_id r = rep_id ?r then ?r else r) (reporting d) = (reporting d)[i := ?r]"
    by blast
  have "create_reporting_entry a d = (Inr ?r, d\<lparr>reporting := (reporting d)[i := ?r]\<rparr>)"
    unfolding create_update_branch [OF ev lat] db_update_def i(3) ..
  with i(1,2) show ?thesis by (auto simp: Let_def)
qed

lemma insert_branch_step:
  assumes ev: "get_event d (in_event_id a) = Some event"
    and lat: "latest_reporting d (ev_id event) = None"
  shows "create_reporting_entry a d =
           (let r = \<lparr> rep_id = reporting_id_seq d,
                      event_id = ev_id event,
                      event_title = title event,
                      event_date = start_date event,
                      event_start_time = start_time event,
                      visitor = Some (in_visitor a),
                      vacation = if_not_none (fst (auto_detect d event)) (in_vacation a),
                      holiday = if_not_none (fst (snd (auto_detect d event))) (in_holiday a),
                      special = if_not_none (snd (snd (auto_detect d event))) (in_special a) \<rparr>
            in (Inr r, d\<lparr>reporting := reporting d @ [r],
                          reporting_id_seq := reporting_id_seq d + 1\<rparr>))"
proof -
  have "list_ex (\<lambda>e. ev_id e = ev_id event) (events d)"
    using get_event_Some(1) [OF ev] by (auto simp: list_ex_iff)
  then show ?thesis
    by (simp add: create_insert_branch [OF ev lat] db_add_def references_event_def Let_def)
qed

lemma manual_branch_step:
  assumes "get_event d (in_event_id a) = None"
  shows "create_reporting_entry a d =
           (let r = (manual_row a)\<lparr>rep_id := reporting_id_seq d\<rparr>
            in if list_ex (\<lambda>e. ev_id e = event_id_or_99 (in_event_id a)) (events d)
               then (Inr r, d\<lparr>reporting := reporting d @ [r],
                                reporting_id_seq := reporting_id_seq d + 1\<rparr>)
               else (Inl IntegrityError, d\<lparr>reporting_id_seq := reporting_id_seq d + 1\<rparr>))"
  by (simp add: create_manual_branch [OF assms] db_add_def references_event_def manual_row_def
                Let_def)

lemma create_event_backed_row:
  assumes ev: "get_event d (in_event_id a) = Some event"
  shows "\<exists>r d'. create_reporting_entry a d = (Inr r, d') \<and>
           vacation r = if_not_none (fst (auto_detect d event)) (in_vacation a) \<and>
           holiday r = if_not_none (fst (snd (auto_detect d event))) (in_holiday a) \<and>
           special r = if_not_none (snd (snd (auto_detect d event))) (in_special a) \<and>
           visitor r = Some (in_visitor a) \<and>
           event_id r = ev_id event \<and>
           r \<in> set (reporting d')"
proof (cases "latest_reporting d (ev_id event)")
  case None
  show ?thesis unfolding insert_branch_step [OF ev None] by (simp add: Let_def)
next
  case (Some existing)
  note ex = latest_reporting_Some [OF Some]
  have "existing \<in> set (reporting d)" by (rule ex(1))
  then show ?thesis
    unfolding create_update_branch [OF ev Some] db_update_def using ex(2)
    by (force simp: image_iff)
qed

text \<open>The handler keeps the database well-formed.\<close>

lemma db_ok_append:
  assumes "db_ok d" and "rep_id r = reporting_id_seq d" and "references_event d r"
  shows "db_ok (d\<lparr>reporting := reporting d @ [r], reporting_id_seq := reporting_id_seq d + 1\<rparr>)"
proof -
  from assms(1) have below: "\<And>x. x \<in> set (reporting d) \<Longrightarrow> rep_id x < reporting_id_seq d"
    by (auto simp: db_ok_def list_all_iff)
  have fresh: "rep_id r \<notin> rep_id ` set (reporting d)"
  proof
    assume "rep_id r \<in> rep_id ` set (reporting d)"
    then obtain x where "x \<in> set (reporting d)" "rep_id x = rep_id r" by auto
    with below [of x] assms(2) show False by simp
  qed
  have "\<And>x. x \<in> set (reporting d) \<Longrightarrow> rep_id x < reporting_id_seq d + 1"
    using below by (simp add: less_imp_le zless_add1_eq)
  with assms fresh show ?thesis
    by (simp add: db_ok_def list_all_iff references_event_def)
qed

lemma db_ok_seq:
  "db_ok d \<Longrightarrow> db_ok (d\<lparr>reporting_id_seq := reporting_id_seq d + 1\<rparr>)"
proof -
  assume ok: "db_ok d"
  then have "\<And>x. x \<in> set (reporting d) \<Longrightarrow> rep_id x < reporting_id_seq d + 1"
    by (auto simp: db_ok_def list_all_iff less_imp_le zless_add1_eq)
  with ok show ?thesis by (simp add: db_ok_def list_all_iff references_event_def)
qed

lemma db_ok_replace:
  assumes ok: "db_ok d" and i: "i < length (reporting d)"
    and id: "rep_id r = rep_id (reporting d ! i)" and eid: "event_id r = event_id (reporting d ! i)"
  shows "db_ok (d\<lparr>reporting := (reporting d)[i := r]\<rparr>)"
proof -
  have ids: "map rep_id ((reporting d)[i := r]) = map rep_id (reporting d)"
    using i id by (simp add: map_update list_update_same_conv)
  have old: "reporting d ! i \<in> set (reporting d)" using i by simp
  have "\<And>x. x \<in> set ((reporting d)[i := r]) \<Longrightarrow>
          rep_id x < reporting_id_seq d \<and> references_event d x"
  proof -
    fix x assume "x \<in> set ((reporting d)[i := r])"
    then have "x = r \<or> x \<in> set (reporting d)"
      using set_update_subset_insert [of "reporting d" i r] by auto
    then show "rep_id x < reporting_id_seq d \<and> references_event d x"
      using ok old id eid by (auto simp: db_ok_def list_all_iff references_event_def)
  qed
  then show ?thesis using ok ids by (simp add: db_ok_def list_all_iff references_event_def)
qed

lemma db_ok_create:
  assumes ok: "db_ok d"
  shows "db_ok (snd (create_reporting_entry a d))"
proof (cases "get_event d (in_event_id a)")
  case None
  show ?thesis
    unfolding manual_branch_step [OF None]
    using db_ok_seq [OF ok]
          db_ok_append [OF ok, of "(manual_row a)\<lparr>rep_id := reporting_id_seq d\<rparr>"]
    by (simp add: Let_def references_event_def manual_row_def)
next
  case (Some event)
  show ?thesis
  proof (cases "latest_reporting d (ev_id event)")
    case None
    have "list_ex (\<lambda>e. ev_id e = ev_id event) (events d)"
      using get_event_Some(1) [OF Some] by (auto simp: list_ex_iff)
    then show ?thesis
      unfolding insert_branch_step [OF Some None] Let_def
      by (intro db_ok_append [OF ok, THEN back_subst [where P = db_ok]])
         (simp_all add: references_event_def)
  next
    case existing: (Some existing)
    from ok have dist: "distinct (map rep_id (reporting d))" by (simp add: db_ok_def)
    from update_branch_step [OF dist Some existing] obtain i r
      where "i < length (reporting d)" "reporting d ! i = existing"
        "create_reporting_entry a d = (Inr r, d\<lparr>reporting := (reporting d)[i := r]\<rparr>)"
        "rep_id r = rep_id existing" "event_id r = event_id existing"
      by (auto simp: Let_def)
    then show ?thesis using db_ok_replace [OF ok, of i r] by simp
  qed
qed

section \<open>Submitting reporting for an event\<close>







text \<open>
  C4: when the event id of a submission resolves to no event and is not 0, the row built
  from the payload carries that id, which no stored event has. The commit violates the
  foreign key: the handler ends with the error, no row is stored, and the number of
  rows of every event id stays what it was.
\<close>

theorem unresolved_event_commit_fails:
  assumes "get_event d (in_event_id reporting_in) = None"
    and "in_event_id reporting_in \<noteq> 0"
  shows "fst (create_reporting_entry reporting_in d) = Inl IntegrityError \<and>
         reporting (snd (create_reporting_entry reporting_in d)) = reporting d \<and>
         events (snd (create_reporting_entry reporting_in d)) = events d \<and>
         row_count (snd (create_reporting_entry reporting_in d)) i = row_count d i"
proof -
  have "\<not> list_ex (\<lambda>e. ev_id e = event_id_or_99 (in_event_id reporting_in)) (events d)"
    using assms by (simp add: get_event_None event_id_or_99_def)
  then show ?thesis
    unfolding manual_branch_step [OF assms(1)] by (simp add: Let_def row_count_def)
qed

theorem unresolved_event_commit_fails_witness:
  "get_event ex_db (in_event_id (ex_in 42)) = None \<and> in_event_id (ex_in 42) \<noteq> 0 \<and>
   fst (create_reporting_entry (ex_in 42) ex_db) = Inl IntegrityError \<and>
   reporting (snd (create_reporting_entry (ex_in 42) ex_db)) = reporting ex_db \<and>
   row_count ex_db 42 = 0 \<and>
   row_count (snd (create_reporting_entry (ex_in 42) ex_db)) 42 = 0"
proof -
  have h: "get_event ex_db (in_event_id (ex_in 42)) = None"
    by (simp add: get_event_def ex_defs)
  have n: "in_event_id (ex_in 42) \<noteq> 0" by (simp add: ex_in_def)
  have c: "row_count ex_db 42 = 0" by (simp add: row_count_def ex_db_def)
  from unresolved_event_commit_fails [OF h n, of 42] h n c show ?thesis by simp
qed

text \<open>
  C5, as amended: the visitor count is a required field. A body without it is rejected by
  the validation and the database stays as it was; in every accepted submission that
  returns a row the visitor count is present, and the returned row, which is in the
  table afterwards, holds exactly that value.
\<close>

theorem visitor_required_and_read_back:
  "(p_visitor p = None \<longrightarrow> (\<exists>e. post_reporting p d = (Inl e, d))) \<and>
   (\<forall>r d'. post_reporting p d = (Inr r, d') \<longrightarrow>
      p_visitor p \<noteq> None \<and> visitor r = p_visitor p \<and> r \<in> set (reporting d'))"
proof (intro conjI allI impI)
  assume "p_visitor p = None"
  then show "\<exists>e. post_reporting p d = (Inl e, d)"
    by (cases "p_event_id p") (simp_all add: post_reporting_def ReportingCreate_validate_def)
next
  fix r d' assume run: "post_reporting p d = (Inr r, d')"
  then obtain a where val: "ReportingCreate_validate p = Inr a"
    and res: "create_reporting_entry a d = (Inr r, d')"
    by (auto simp: post_reporting_def split: sum.splits)
  from val have v: "p_visitor p = Some (in_visitor a)"
    by (auto simp: ReportingCreate_validate_def Let_def split: option.splits)
  then show "p_visitor p \<noteq> None" by simp
  have "visitor r = Some (in_visitor a) \<and> r \<in> set (reporting d')"
  proof (cases "get_event d (in_event_id a)")
    case None
    from res show ?thesis
      unfolding manual_branch_step [OF None]
      by (auto simp: Let_def manual_row_def split: if_splits)
  next
    case (Some event)
    from create_event_backed_row [OF Some] res show ?thesis by auto
  qed
  with v show "visitor r = p_visitor p" and "r \<in> set (reporting d')" by simp_all
qed

theorem visitor_required_and_read_back_witness:
  "p_visitor (ex_payload (Some 1) None) = None \<and>
   post_reporting (ex_payload (Some 1) None) ex_db = (Inl (ValidationError [''visitor'']), ex_db) \<and>
   fst (post_reporting (ex_payload (Some 1) (Some 0)) ex_db) =
     Inr \<lparr>rep_id = 2, event_id = 1, event_title = ''Gottesdienst'', event_date = Some 100,
          event_start_time = Some 600, visitor = Some 0, vacation = Some ''Pfingstferien'',
          holiday = Some ''Pfingstferien'', special = Some ''Jugendgottesdienst, Lobpreis''\<rparr> \<and>
   visitor (projr (fst (post_reporting (ex_payload (Some 1) (Some 0)) ex_db))) = Some 0 \<and>
   projr (fst (post_reporting (ex_payload (Some 1) (Some 0)) ex_db)) \<in>
     set (reporting (snd (post_reporting (ex_payload (Some 1) (Some 0)) ex_db)))"
proof -
  let ?p = "ex_payload (Some 1) (Some 0)"
  let ?r = "\<lparr>rep_id = 2, event_id = 1, event_title = ''Gottesdienst'', event_date = Some 100,
          event_start_time = Some 600, visitor = Some 0, vacation = Some ''Pfingstferien'',
          holiday = Some ''Pfingstferien'', special = Some ''Jugendgottesdienst, Lobpreis''\<rparr>"
  have n: "p_visitor (ex_payload (Some 1) None) = None" by (simp add: ex_payload_def)
  have rej: "post_reporting (ex_payload (Some 1) None) ex_db =
               (Inl (ValidationError [''visitor'']), ex_db)"
    using visitor_required_and_read_back [of "ex_payload (Some 1) None" ex_db] n
    by (simp add: post_reporting_def ReportingCreate_validate_def ex_payload_def)
  have run: "fst (post_reporting ?p ex_db) = Inr ?r"
    by (simp add: post_reporting_def ReportingCreate_validate_def ex_payload_def ex_defs run_defs
             split: prod.splits)
  then have "post_reporting ?p ex_db = (Inr ?r, snd (post_reporting ?p ex_db))"
    by (metis prod.collapse)
  from visitor_required_and_read_back [of ?p ex_db, THEN conjunct2, rule_format, OF this]
    n rej run
  show ?thesis by simp
qed

text \<open>
  A submission without a visitor count does not produce a row with an unset visitor: it
  is answered with a validation error.
\<close>

theorem visitor_absent_counterexample:
  "post_reporting (ex_payload (Some 1) None) ex_db = (Inl (ValidationError [''visitor'']), ex_db)"
  by (simp add: post_reporting_def ReportingCreate_validate_def ex_payload_def)



text \<open>
  C8: a submission for the event id 1000, which no event of the example database has,
  takes the manual fallback branch; its commit violates the foreign key, so the handler
  ends with the error and the reporting table is as before: no row is inserted or
  updated. The events table is as before as well.
\<close>

theorem manual_fallback_writes_no_row:
  "fst (create_reporting_entry (ex_in 1000) ex_db) = Inl IntegrityError \<and>
   reporting (snd (create_reporting_entry (ex_in 1000) ex_db)) = reporting ex_db \<and>
   events (snd (create_reporting_entry (ex_in 1000) ex_db)) = events ex_db"
  by (simp add: ex_defs run_defs)



section \<open>The manual route\<close>

text \<open>
  C7: a manual submission whose body has no event id is rejected by the validation, also
  when the visitor count is given: no row with event id 99 is created.
\<close>

theorem manual_without_event_id_rejected:
  "post_reporting_manual (ex_payload None (Some 5)) d = (Inl (ValidationError [''event_id'']), d) \<and>
   post_reporting_manual (ex_payload None None) d =
     (Inl (ValidationError [''event_id'', ''visitor'']), d)"
  by (simp add: post_reporting_manual_def ReportingCreate_validate_def ex_payload_def)



end
